theory Spec2Isabelle
  imports Main "HOL-Library.Multiset" "HOL-Library.Sublist"
begin

section \<open>Data model of the SQL query agent workflow\<close>

text \<open>
  The workflow of \<^verbatim>\<open>SQL_Query_Agent.py\<close> is a graph of nodes over one shared state.
  Each node reads the state and returns a partial update (a Python dict holding only the
  keys it writes); the update is merged key by key: \<^verbatim>\<open>query_suggestion\<close> is declared
  \<^verbatim>\<open>Annotated[List[Tuple[str, dict]], add]\<close> and \<^verbatim>\<open>messages\<close> comes from
  \<^verbatim>\<open>MessagesState\<close>, so both are merged by list concatenation; every other key is
  overwritten. (The reducer of \<^verbatim>\<open>messages\<close> replaces a message whose id is already
  present; the nodes build their messages without an id, so each one is new and is
  appended.)
\<close>

datatype message = AIMessage (content: string)

text \<open>
  \<^verbatim>\<open>QueryOutput\<close>, the structured output of a generation chain: both keys are declared.
\<close>

record QueryOutput =
  out_query :: string
  out_suggestion :: "string list"

text \<open>
  The payload dict of one candidate: \<^verbatim>\<open>{"query": ...}\<close>, with the key
  \<^verbatim>\<open>"suggestion"\<close> present only in the entries of \<^verbatim>\<open>query_agent_3\<close>.
\<close>

record query_data =
  query :: string
  suggestion :: "string list option"

type_synonym candidate = "string \<times> query_data"

text \<open>
  \<^verbatim>\<open>class State(MessagesState)\<close>. A field that may hold \<^verbatim>\<open>None\<close> is an option.
  \<^verbatim>\<open>refactoring_suggestion\<close> is annotated \<^verbatim>\<open>str\<close> but only ever receives
  \<^verbatim>\<open>None\<close> or the list returned by \<^verbatim>\<open>find_suggestion\<close>; \<^verbatim>\<open>query_result\<close> receives
  \<^verbatim>\<open>None\<close> or the value of \<^verbatim>\<open>DatabaseManager.execute_query\<close>, annotated \<^verbatim>\<open>-> str\<close>.
\<close>

record State =
  messages :: "message list"
  user_request :: string
  user_feedback :: string
  selected_query :: "string option"
  query_suggestion :: "candidate list"
  refactoring_suggestion :: "string list option"
  query_result :: "string option"
  error_message :: "string option"

text \<open>
  A partial update: \<open>None\<close> means that the key is absent from the returned dict,
  \<open>Some v\<close> that the dict maps the key to \<open>v\<close> (so \<open>Some None\<close> is the key set to
  \<^verbatim>\<open>None\<close>). No node writes \<^verbatim>\<open>user_request\<close>.
\<close>

record update =
  u_messages :: "message list option"
  u_user_feedback :: "string option"
  u_selected_query :: "string option option"
  u_query_suggestion :: "candidate list option"
  u_refactoring_suggestion :: "string list option option"
  u_query_result :: "string option option"
  u_error_message :: "string option option"

definition empty_update :: update where
  "empty_update =
     \<lparr>u_messages = None, u_user_feedback = None, u_selected_query = None,
      u_query_suggestion = None, u_refactoring_suggestion = None,
      u_query_result = None, u_error_message = None\<rparr>"

definition overwrite :: "'a \<Rightarrow> 'a option \<Rightarrow> 'a" where
  "overwrite old w = (case w of None \<Rightarrow> old | Some v \<Rightarrow> v)"

definition add :: "'a list \<Rightarrow> 'a list option \<Rightarrow> 'a list" where
  "add old w = (case w of None \<Rightarrow> old | Some vs \<Rightarrow> old @ vs)"

definition apply_update :: "State \<Rightarrow> update \<Rightarrow> State" where
  "apply_update st u =
     \<lparr>messages = add (messages st) (u_messages u),
      user_request = user_request st,
      user_feedback = overwrite (user_feedback st) (u_user_feedback u),
      selected_query = overwrite (selected_query st) (u_selected_query u),
      query_suggestion = add (query_suggestion st) (u_query_suggestion u),
      refactoring_suggestion =
        overwrite (refactoring_suggestion st) (u_refactoring_suggestion u),
      query_result = overwrite (query_result st) (u_query_result u),
      error_message = overwrite (error_message st) (u_error_message u)\<rparr>"

section \<open>External collaborators\<close>

text \<open>
  What a \<^verbatim>\<open>try\<close> block around an external call ends with: the call returned a value, or
  an \<^verbatim>\<open>Exception\<close> was raised, kept as its text \<^verbatim>\<open>str(e)\<close>.
\<close>

datatype 'a outcome = Raised string | Returned 'a

text \<open>
  The three generation chains take the parameters built by \<^verbatim>\<open>get_query_params\<close>, of
  which only the request and the feedback vary; \<^verbatim>\<open>db_execute_query\<close> is
  \<^verbatim>\<open>DatabaseManager.execute_query\<close>, which re-raises what the query tool raises;
  \<^verbatim>\<open>str_list\<close> is Python's \<^verbatim>\<open>str\<close> on a list of strings (see \<open>py_str_list\<close>
  below).
\<close>

record env =
  basic_chain :: "string \<Rightarrow> string \<Rightarrow> QueryOutput outcome"
  optimized_chain :: "string \<Rightarrow> string \<Rightarrow> QueryOutput outcome"
  advanced_chain :: "string \<Rightarrow> string \<Rightarrow> QueryOutput outcome"
  db_execute_query :: "string option \<Rightarrow> string outcome"
  str_list :: "string list \<Rightarrow> string"

text \<open>\<^verbatim>\<open>str(x)\<close> for a value that is \<^verbatim>\<open>None\<close> or a string.\<close>

fun py_str :: "string option \<Rightarrow> string" where
  "py_str None = ''None''"
| "py_str (Some s) = s"

text \<open>
  Python's \<^verbatim>\<open>str\<close> on a list of strings: the \<^verbatim>\<open>repr\<close> of each element, separated by a
  comma and a space, in square brackets. \<^verbatim>\<open>repr\<close> quotes with apostrophes, or with double
  quotes when the string holds an apostrophe and no double quote; it escapes the quote
  character and the backslash, writes tab, newline and carriage return as \<^verbatim>\<open>\t\<close>,
  \<^verbatim>\<open>\n\<close>, \<^verbatim>\<open>\r\<close>, and the other control characters as \<^verbatim>\<open>\xNN\<close>. A string is
  held as its UTF-8 bytes; the bytes of a character beyond ASCII are copied, as Python
  does for every printable character.
\<close>

definition hex_digit :: "nat \<Rightarrow> char" where
  "hex_digit n = ''0123456789abcdef'' ! (n mod 16)"

definition repr_char :: "char \<Rightarrow> char \<Rightarrow> string" where
  "repr_char quote c =
     (if c = quote \<or> c = CHR 0x5C then [CHR 0x5C, c]
      else if c = CHR 0x09 then [CHR 0x5C, CHR ''t'']
      else if c = CHR 0x0A then [CHR 0x5C, CHR ''n'']
      else if c = CHR 0x0D then [CHR 0x5C, CHR ''r'']
      else if (of_char c :: nat) < 32 \<or> c = CHR 0x7F then
        [CHR 0x5C, CHR ''x'', hex_digit (of_char c div 16), hex_digit (of_char c mod 16)]
      else [c])"

definition py_repr :: "string \<Rightarrow> string" where
  "py_repr s =
     (let quote = (if CHR 0x27 \<in> set s \<and> CHR 0x22 \<notin> set s then CHR 0x22 else CHR 0x27)
      in [quote] @ concat (map (repr_char quote) s) @ [quote])"

fun join :: "string \<Rightarrow> string list \<Rightarrow> string" where
  "join sep [] = []"
| "join sep [x] = x"
| "join sep (x # y # ys) = x @ sep @ join sep (y # ys)"

definition py_str_list :: "string list \<Rightarrow> string" where
  "py_str_list xs = ''['' @ join '', '' (map py_repr xs) @ '']''"

text \<open>
  The three fixed message texts of the terminal nodes, as UTF-8 bytes: "query execution
  completed", "query execution error" and "query execution cancelled" in Korean.
\<close>

definition msg_prefix :: string where
  "msg_prefix =
     [CHR 0xEC, CHR 0xBF, CHR 0xBC, CHR 0xEB, CHR 0xA6, CHR 0xAC, CHR 0x20,
      CHR 0xEC, CHR 0x8B, CHR 0xA4, CHR 0xED, CHR 0x96, CHR 0x89, CHR 0x20]"

definition msg_completed :: string where
  "msg_completed = msg_prefix @ [CHR 0xEC, CHR 0x99, CHR 0x84, CHR 0xEB, CHR 0xA3, CHR 0x8C]"

definition msg_error :: string where
  "msg_error = msg_prefix @ [CHR 0xEC, CHR 0x98, CHR 0xA4, CHR 0xEB, CHR 0xA5, CHR 0x98]"

definition msg_cancelled :: string where
  "msg_cancelled = msg_prefix @ [CHR 0xEC, CHR 0xB7, CHR 0xA8, CHR 0xEC, CHR 0x86, CHR 0x8C]"

section \<open>The nodes of \<^verbatim>\<open>WorkflowManager\<close>\<close>

definition gateway :: "State \<Rightarrow> update" where
  "gateway st =
     empty_update\<lparr>u_selected_query := Some None, u_query_suggestion := Some [],
       u_refactoring_suggestion := Some None, u_query_result := Some None,
       u_error_message := Some None\<rparr>"

text \<open>
  \<^verbatim>\<open>Send(node, payload)\<close>: the target node runs on the payload alone, here the request
  and the feedback.
\<close>

record payload =
  p_user_request :: string
  p_user_feedback :: string

datatype send = Send (target: string) (arg: payload)

definition generate_query :: "State \<Rightarrow> send list" where
  "generate_query st =
     [Send ''query_agent_1''
        \<lparr>p_user_request = user_request st, p_user_feedback = user_feedback st\<rparr>,
      Send ''query_agent_2''
        \<lparr>p_user_request = user_request st, p_user_feedback = user_feedback st\<rparr>,
      Send ''query_agent_3''
        \<lparr>p_user_request = user_request st, p_user_feedback = user_feedback st\<rparr>]"

text \<open>The two loops over \<^verbatim>\<open>state["query_suggestion"]\<close>: each returns at the first match.\<close>

fun first_query :: "candidate list \<Rightarrow> string \<Rightarrow> string option" where
  "first_query [] agent_name = None"
| "first_query ((agent, qd) # rest) agent_name =
     (if agent = agent_name then Some (query qd) else first_query rest agent_name)"

fun first_suggestion :: "candidate list \<Rightarrow> string \<Rightarrow> string list" where
  "first_suggestion [] agent_name = []"
| "first_suggestion ((agent, qd) # rest) agent_name =
     (if agent = agent_name
      then (case suggestion qd of None \<Rightarrow> [] | Some l \<Rightarrow> l)
      else first_suggestion rest agent_name)"

definition find_selected_query :: "State \<Rightarrow> string \<Rightarrow> string option" where
  "find_selected_query st agent_name = first_query (query_suggestion st) agent_name"

definition find_suggestion :: "State \<Rightarrow> string \<Rightarrow> string list" where
  "find_suggestion st agent_name = first_suggestion (query_suggestion st) agent_name"

text \<open>
  \<^verbatim>\<open>wait_user_feedback\<close> from the point where \<^verbatim>\<open>interrupt\<close> returns the resume value
  \<open>user_input\<close>: on resume the node runs again on the checkpointed state.
\<close>

definition wait_user_feedback :: "State \<Rightarrow> string \<Rightarrow> update" where
  "wait_user_feedback st user_input =
     (if user_input = ''1'' then
        empty_update\<lparr>u_user_feedback := Some ''1'',
          u_selected_query := Some (find_selected_query st ''query_agent_1'')\<rparr>
      else if user_input = ''2'' then
        empty_update\<lparr>u_user_feedback := Some ''2'',
          u_selected_query := Some (find_selected_query st ''query_agent_2'')\<rparr>
      else if user_input = ''3'' then
        empty_update\<lparr>u_user_feedback := Some ''3'',
          u_selected_query := Some (find_selected_query st ''query_agent_3''),
          u_refactoring_suggestion := Some (Some (find_suggestion st ''query_agent_3''))\<rparr>
      else empty_update\<lparr>u_user_feedback := Some user_input\<rparr>)"

definition next_after_feedback :: "State \<Rightarrow> string" where
  "next_after_feedback st =
     (let user_input = user_feedback st in
      if user_input \<in> set [''1'', ''2'', ''3''] then ''execute''
      else if user_input \<in> set [''stop'', ''cancel'', ''exit'', ''quit''] then ''cancel''
      else ''retry'')"

definition execute_query :: "env \<Rightarrow> State \<Rightarrow> update" where
  "execute_query e st =
     (case db_execute_query e (selected_query st) of
        Returned r \<Rightarrow> empty_update\<lparr>u_query_result := Some (Some r), u_error_message := Some None\<rparr>
      | Raised x \<Rightarrow> empty_update\<lparr>u_query_result := Some None, u_error_message := Some (Some x)\<rparr>)"

definition error_query :: "string \<Rightarrow> string" where
  "error_query x = ''-- Error: '' @ x"

definition query_agent_1 :: "env \<Rightarrow> payload \<Rightarrow> update" where
  "query_agent_1 e p =
     (case basic_chain e (p_user_request p) (p_user_feedback p) of
        Returned response \<Rightarrow>
          empty_update\<lparr>u_query_suggestion :=
            Some [(''query_agent_1'', \<lparr>query = out_query response, suggestion = None\<rparr>)]\<rparr>
      | Raised x \<Rightarrow>
          empty_update\<lparr>u_query_suggestion :=
            Some [(''query_agent_1'', \<lparr>query = error_query x, suggestion = None\<rparr>)]\<rparr>)"

definition query_agent_2 :: "env \<Rightarrow> payload \<Rightarrow> update" where
  "query_agent_2 e p =
     (case optimized_chain e (p_user_request p) (p_user_feedback p) of
        Returned response \<Rightarrow>
          empty_update\<lparr>u_query_suggestion :=
            Some [(''query_agent_2'', \<lparr>query = out_query response, suggestion = None\<rparr>)]\<rparr>
      | Raised x \<Rightarrow>
          empty_update\<lparr>u_query_suggestion :=
            Some [(''query_agent_2'', \<lparr>query = error_query x, suggestion = None\<rparr>)]\<rparr>)"

definition query_agent_3 :: "env \<Rightarrow> payload \<Rightarrow> update" where
  "query_agent_3 e p =
     (case advanced_chain e (p_user_request p) (p_user_feedback p) of
        Returned response \<Rightarrow>
          empty_update\<lparr>u_query_suggestion :=
            Some [(''query_agent_3'',
              \<lparr>query = out_query response, suggestion = Some (out_suggestion response)\<rparr>)]\<rparr>
      | Raised x \<Rightarrow>
          empty_update\<lparr>u_query_suggestion :=
            Some [(''query_agent_3'', \<lparr>query = error_query x, suggestion = Some []\<rparr>)]\<rparr>)"

definition aggregate :: "State \<Rightarrow> update" where
  "aggregate st = empty_update"

text \<open>
  \<^verbatim>\<open>state.get("refactoring_suggestion")\<close> is truthy for a non-empty list only.
\<close>

definition end_on_success :: "env \<Rightarrow> State \<Rightarrow> update" where
  "end_on_success e st =
     empty_update\<lparr>u_messages := Some
       ([AIMessage msg_completed, AIMessage (py_str (query_result st))] @
        (case refactoring_suggestion st of
           Some (x # xs) \<Rightarrow> [AIMessage (str_list e (x # xs))]
         | _ \<Rightarrow> []))\<rparr>"

definition end_on_error :: "State \<Rightarrow> update" where
  "end_on_error st =
     empty_update\<lparr>u_messages := Some
       [AIMessage msg_error, AIMessage (py_str (error_message st))]\<rparr>"

definition end_on_cancel :: "State \<Rightarrow> update" where
  "end_on_cancel st = empty_update\<lparr>u_messages := Some [AIMessage msg_cancelled]\<rparr>"

section \<open>The graph of \<^verbatim>\<open>SQLQueryAgent._build_graph\<close>\<close>

text \<open>
  \<open>Fan_out\<close> stands for the step in which the three tasks sent by \<^verbatim>\<open>generate_query\<close>
  run; \<open>Invalid_route\<close> for a router label missing from the edge mapping.
\<close>

datatype node =
  Gateway | Fan_out | Aggregate | Wait_user_feedback | Execute_query
  | End_on_success | End_on_error | End_on_cancel | END | Invalid_route

definition feedback_edges :: "(string \<times> node) list" where
  "feedback_edges =
     [(''retry'', Gateway), (''execute'', Execute_query), (''cancel'', End_on_cancel)]"

text \<open>The router \<^verbatim>\<open>lambda x: "success" if x["error_message"] is None else "error"\<close>.\<close>

definition execute_router :: "State \<Rightarrow> string" where
  "execute_router x = (if error_message x = None then ''success'' else ''error'')"

definition execute_edges :: "(string \<times> node) list" where
  "execute_edges = [(''success'', End_on_success), (''error'', End_on_error)]"

definition follow :: "(string \<times> node) list \<Rightarrow> string \<Rightarrow> node" where
  "follow edges label = (case map_of edges label of None \<Rightarrow> Invalid_route | Some n \<Rightarrow> n)"

definition run_task :: "env \<Rightarrow> send \<Rightarrow> update" where
  "run_task e t =
     (if target t = ''query_agent_1'' then query_agent_1 e (arg t)
      else if target t = ''query_agent_2'' then query_agent_2 e (arg t)
      else if target t = ''query_agent_3'' then query_agent_3 e (arg t)
      else empty_update)"

text \<open>
  The updates of the dispatched tasks are merged one after the other, in an order the
  graph does not fix: \<open>finished\<close> proposes one, and is taken when it is a rearrangement
  of the dispatched tasks (otherwise the dispatch order is used).
\<close>

definition merge_order :: "send list \<Rightarrow> send list \<Rightarrow> send list" where
  "merge_order tasks finished = (if mset finished = mset tasks then finished else tasks)"

definition fan_out :: "env \<Rightarrow> send list \<Rightarrow> State \<Rightarrow> State" where
  "fan_out e finished st =
     fold (\<lambda>t s. apply_update s (run_task e t)) (merge_order (generate_query st) finished) st"

text \<open>
  What one step of the walk takes from outside: the order in which the fan-out tasks
  finish, and the resume value handed to the suspend point.
\<close>

record choice =
  finished :: "send list"
  resume :: string

type_synonym config = "node \<times> State"

fun step :: "env \<Rightarrow> choice \<Rightarrow> config \<Rightarrow> config" where
  "step e c (Gateway, st) = (Fan_out, apply_update st (gateway st))"
| "step e c (Fan_out, st) = (Aggregate, fan_out e (finished c) st)"
| "step e c (Aggregate, st) = (Wait_user_feedback, apply_update st (aggregate st))"
| "step e c (Wait_user_feedback, st) =
     (let st' = apply_update st (wait_user_feedback st (resume c))
      in (follow feedback_edges (next_after_feedback st'), st'))"
| "step e c (Execute_query, st) =
     (let st' = apply_update st (execute_query e st)
      in (follow execute_edges (execute_router st'), st'))"
| "step e c (End_on_success, st) = (END, apply_update st (end_on_success e st))"
| "step e c (End_on_error, st) = (END, apply_update st (end_on_error st))"
| "step e c (End_on_cancel, st) = (END, apply_update st (end_on_cancel st))"
| "step e c (END, st) = (END, st)"
| "step e c (Invalid_route, st) = (Invalid_route, st)"

definition run :: "env \<Rightarrow> choice list \<Rightarrow> config \<Rightarrow> config" where
  "run e cs cfg = fold (step e) cs cfg"

text \<open>
  The state that \<^verbatim>\<open>WorkflowController.process_initial_question\<close> starts a thread with.
\<close>

definition initial_state :: "string \<Rightarrow> State" where
  "initial_state question =
     \<lparr>messages = [], user_request = question, user_feedback = [],
      selected_query = None, query_suggestion = [], refactoring_suggestion = None,
      query_result = None, error_message = None\<rparr>"

section \<open>The display layer: \<^verbatim>\<open>UIManager._process_query_suggestions\<close>\<close>

definition agent_order :: "string list" where
  "agent_order = [''query_agent_1'', ''query_agent_2'', ''query_agent_3'']"

text \<open>
  The function of \<^verbatim>\<open>streamlit_app.py\<close>: the slice \<^verbatim>\<open>[-3:]\<close> when the list is longer
  than three, the dict \<^verbatim>\<open>latest_suggestions\<close> filled in list order, and the loop over
  \<^verbatim>\<open>agent_order\<close> that appends the entries found in the dict.
\<close>

definition process_query_suggestions :: "candidate list \<Rightarrow> candidate list" where
  "process_query_suggestions query_suggestions =
     (if query_suggestions = [] then []
      else
        let recent_suggestions =
              (if length query_suggestions > 3
               then drop (length query_suggestions - 3) query_suggestions
               else query_suggestions);
            latest_suggestions =
              fold (\<lambda>(agent_name, query_data) d. d(agent_name \<mapsto> query_data))
                recent_suggestions Map.empty
        in fold (\<lambda>agent_name display_suggestions.
                   case latest_suggestions agent_name of
                     Some query_data \<Rightarrow> display_suggestions @ [(agent_name, query_data)]
                   | None \<Rightarrow> display_suggestions)
             agent_order [])"

text \<open>
  The same in the words of the specification: keep only the last three entries; for
  each producer take the latest of those; list them in the order of the producers.
\<close>

definition last_three :: "'a list \<Rightarrow> 'a list" where
  "last_three xs = drop (length xs - 3) xs"

definition latest_entry :: "candidate list \<Rightarrow> string \<Rightarrow> query_data option" where
  "latest_entry xs agent_name = map_of (rev xs) agent_name"

definition displayed_candidates :: "candidate list \<Rightarrow> candidate list" where
  "displayed_candidates xs =
     List.map_filter
       (\<lambda>agent_name. map_option (Pair agent_name) (latest_entry (last_three xs) agent_name))
       agent_order"

section \<open>Example collaborators\<close>

text \<open>
  Collaborators for concrete runs: the first two chains answer with a query that shows
  the feedback they were given, the third one raises; the database answers every query
  but the one of the second chain.
\<close>

definition example_env :: env where
  "example_env =
     \<lparr>basic_chain = (\<lambda>req fb. Returned \<lparr>out_query = ''SELECT 1 -- '' @ fb, out_suggestion = []\<rparr>),
      optimized_chain =
        (\<lambda>req fb. Returned \<lparr>out_query = ''SELECT 2 -- '' @ fb, out_suggestion = []\<rparr>),
      advanced_chain = (\<lambda>req fb. Raised ''timeout''),
      db_execute_query =
        (\<lambda>q. case q of
               None \<Rightarrow> Raised ''no query''
             | Some s \<Rightarrow> if take 8 s = ''SELECT 2'' then Raised ''no such table'' else Returned ''[(1,)]''),
      str_list = py_str_list\<rparr>"

definition example_choice :: "string \<Rightarrow> choice" where
  "example_choice s = \<lparr>finished = [], resume = s\<rparr>"

text \<open>
  A run of two cycles: the first suspension is answered with feedback, the second with
  the selector "2".
\<close>

definition retry_then_select_2 :: "choice list" where
  "retry_then_select_2 =
     [example_choice [], example_choice [], example_choice [], example_choice ''add a limit'',
      example_choice [], example_choice [], example_choice [], example_choice ''2'']"



section \<open>Auxiliary notions\<close>

text \<open>The candidates that an update contributes to \<^verbatim>\<open>query_suggestion\<close>.\<close>

definition written :: "update \<Rightarrow> candidate list" where
  "written u = (case u_query_suggestion u of None \<Rightarrow> [] | Some l \<Rightarrow> l)"

section \<open>Merging updates\<close>

lemma apply_update_sel [simp]:
  "messages (apply_update st u) = add (messages st) (u_messages u)"
  "user_request (apply_update st u) = user_request st"
  "user_feedback (apply_update st u) = overwrite (user_feedback st) (u_user_feedback u)"
  "selected_query (apply_update st u) = overwrite (selected_query st) (u_selected_query u)"
  "query_suggestion (apply_update st u) = add (query_suggestion st) (u_query_suggestion u)"
  "refactoring_suggestion (apply_update st u) =
     overwrite (refactoring_suggestion st) (u_refactoring_suggestion u)"
  "query_result (apply_update st u) = overwrite (query_result st) (u_query_result u)"
  "error_message (apply_update st u) = overwrite (error_message st) (u_error_message u)"
  by (simp_all add: apply_update_def)

lemma overwrite_simps [simp]: "overwrite old None = old" "overwrite old (Some v) = v"
  by (simp_all add: overwrite_def)

lemma add_simps [simp]: "add old None = old" "add old (Some vs) = old @ vs"
  by (simp_all add: add_def)

section \<open>The router after the suspend point\<close>

lemma user_feedback_wait:
  "user_feedback (apply_update st (wait_user_feedback st s)) = s"
  by (simp add: wait_user_feedback_def empty_update_def)

lemma next_cases:
  "next_after_feedback st =
     (if user_feedback st \<in> {''1'', ''2'', ''3''} then ''execute''
      else if user_feedback st \<in> {''stop'', ''cancel'', ''exit'', ''quit''} then ''cancel''
      else ''retry'')"
  by (simp add: next_after_feedback_def)

lemma follow_feedback [simp]:
  "follow feedback_edges ''retry'' = Gateway"
  "follow feedback_edges ''execute'' = Execute_query"
  "follow feedback_edges ''cancel'' = End_on_cancel"
  by (simp_all add: follow_def feedback_edges_def)

lemma follow_execute [simp]:
  "follow execute_edges ''success'' = End_on_success"
  "follow execute_edges ''error'' = End_on_error"
  by (simp_all add: follow_def execute_edges_def)

lemma router_after_wait:
  assumes "st' = apply_update st (wait_user_feedback st s)"
  shows "next_after_feedback st' =
     (if s \<in> {''1'', ''2'', ''3''} then ''execute''
      else if s \<in> {''stop'', ''cancel'', ''exit'', ''quit''} then ''cancel''
      else ''retry'')"
  using assms user_feedback_wait [of st s] by (simp only: next_cases)

lemma step_wait:
  "step e c (Wait_user_feedback, st) =
     (if resume c \<in> {''1'', ''2'', ''3''} then Execute_query
      else if resume c \<in> {''stop'', ''cancel'', ''exit'', ''quit''} then End_on_cancel
      else Gateway, apply_update st (wait_user_feedback st (resume c)))"
  by (simp add: Let_def router_after_wait [OF refl] del: apply_update_sel)

lemma step_gateway_feedback:
  "map (\<lambda>t. p_user_feedback (arg t))
     (generate_query (apply_update st (gateway st))) =
   [user_feedback st, user_feedback st, user_feedback st]"
  by (simp add: generate_query_def gateway_def empty_update_def)

lemma label_facts:
  assumes nx: "n =
     (if s \<in> {''1'', ''2'', ''3''} then ''execute''
      else if s \<in> {''stop'', ''cancel'', ''exit'', ''quit''} then ''cancel''
      else ''retry'')"
  shows "n \<in> {''execute'', ''cancel'', ''retry''} \<and>
    (n = ''execute'') = (s \<in> {''1'', ''2'', ''3''}) \<and>
    (n = ''cancel'') = (s \<in> {''stop'', ''cancel'', ''exit'', ''quit''}) \<and>
    (n = ''retry'') =
         (s \<notin> {''1'', ''2'', ''3''} \<union> {''stop'', ''cancel'', ''exit'', ''quit''})"
proof -
  have d: "''execute'' \<noteq> ''cancel''" "''execute'' \<noteq> ''retry''" "''cancel'' \<noteq> ''retry''"
    by simp_all
  consider (a) "s \<in> {''1'', ''2'', ''3''}"
    | (b) "s \<notin> {''1'', ''2'', ''3''}" "s \<in> {''stop'', ''cancel'', ''exit'', ''quit''}"
    | (c) "s \<notin> {''1'', ''2'', ''3''}" "s \<notin> {''stop'', ''cancel'', ''exit'', ''quit''}"
    by blast
  then show ?thesis
  proof cases
    case a
    then have n: "n = ''execute''" by (simp only: nx if_True)
    have "s \<notin> {''stop'', ''cancel'', ''exit'', ''quit''}" using a by auto
    with a show ?thesis unfolding n
      by (simp only: Un_iff simp_thms insertI1 insertI2 d[symmetric] d)
  next
    case b
    then have n: "n = ''cancel''" by (simp only: nx if_True if_False)
    from b show ?thesis unfolding n
      by (simp only: Un_iff simp_thms insertI1 insertI2 d[symmetric] d)
  next
    case c
    then have n: "n = ''retry''" by (simp only: nx if_False)
    from c show ?thesis unfolding n
      by (simp only: Un_iff simp_thms insertI1 insertI2 d[symmetric] d)
  qed
qed

text \<open>
  Claim C3. For every resume string \<open>s\<close> handed to the suspend point, the state after
  \<^verbatim>\<open>wait_user_feedback\<close> has \<^verbatim>\<open>user_feedback\<close> overwritten to \<open>s\<close>, and the router
  \<^verbatim>\<open>next_after_feedback\<close> always returns one of three labels: "execute" exactly for
  "1", "2", "3"; "cancel" exactly for "stop", "cancel", "exit", "quit"; "retry" exactly for
  every other string. The walk then goes to \<^verbatim>\<open>execute_query\<close>, \<^verbatim>\<open>end_on_cancel\<close> or back
  to the gateway; on a retry the next step is a new fan-out whose three tasks all carry
  \<open>s\<close> as feedback.
\<close>

theorem next_after_feedback_partition:
  "(let s = resume c; st' = apply_update st (wait_user_feedback st s) in
      user_feedback st' = s \<and>
      (next_after_feedback st' \<in> {''execute'', ''cancel'', ''retry''} \<and>
       (next_after_feedback st' = ''execute'') = (s \<in> {''1'', ''2'', ''3''}) \<and>
       (next_after_feedback st' = ''cancel'') = (s \<in> {''stop'', ''cancel'', ''exit'', ''quit''}) \<and>
       (next_after_feedback st' = ''retry'') =
         (s \<notin> {''1'', ''2'', ''3''} \<union> {''stop'', ''cancel'', ''exit'', ''quit''})) \<and>
      step e c (Wait_user_feedback, st) =
        (if s \<in> {''1'', ''2'', ''3''} then Execute_query
         else if s \<in> {''stop'', ''cancel'', ''exit'', ''quit''} then End_on_cancel
         else Gateway, st') \<and>
      (s \<notin> {''1'', ''2'', ''3''} \<union> {''stop'', ''cancel'', ''exit'', ''quit''} \<longrightarrow>
         fst (run e [c, c'] (Wait_user_feedback, st)) = Fan_out \<and>
         map (\<lambda>t. p_user_feedback (arg t))
           (generate_query (snd (run e [c, c'] (Wait_user_feedback, st)))) = [s, s, s]))"
proof -
  define s where "s = resume c"
  define st' where "st' = apply_update st (wait_user_feedback st s)"
  have fb: "user_feedback st' = s"
    unfolding st'_def by (rule user_feedback_wait)
  note lab = label_facts [OF router_after_wait [OF st'_def]]
  have st: "step e c (Wait_user_feedback, st) =
        (if s \<in> {''1'', ''2'', ''3''} then Execute_query
         else if s \<in> {''stop'', ''cancel'', ''exit'', ''quit''} then End_on_cancel
         else Gateway, st')"
    unfolding s_def st'_def by (rule step_wait)
  have retry: "s \<notin> {''1'', ''2'', ''3''} \<union> {''stop'', ''cancel'', ''exit'', ''quit''} \<longrightarrow>
         fst (run e [c, c'] (Wait_user_feedback, st)) = Fan_out \<and>
         map (\<lambda>t. p_user_feedback (arg t))
           (generate_query (snd (run e [c, c'] (Wait_user_feedback, st)))) = [s, s, s]"
  proof
    assume "s \<notin> {''1'', ''2'', ''3''} \<union> {''stop'', ''cancel'', ''exit'', ''quit''}"
    then have "step e c (Wait_user_feedback, st) = (Gateway, st')"
      by (simp only: st Un_iff de_Morgan_disj if_False)
    then have "run e [c, c'] (Wait_user_feedback, st) = (Fan_out, apply_update st' (gateway st'))"
      by (simp add: run_def)
    then show "fst (run e [c, c'] (Wait_user_feedback, st)) = Fan_out \<and>
         map (\<lambda>t. p_user_feedback (arg t))
           (generate_query (snd (run e [c, c'] (Wait_user_feedback, st)))) = [s, s, s]"
      by (simp only: fst_conv snd_conv step_gateway_feedback fb simp_thms)
  qed
  show ?thesis
    unfolding Let_def s_def [symmetric] st'_def [symmetric]
    by (rule conjI [OF fb conjI [OF lab conjI [OF st retry]]])
qed

theorem next_after_feedback_partition_witness:
  "''add a limit'' \<notin> {''1'', ''2'', ''3''} \<union> {''stop'', ''cancel'', ''exit'', ''quit''} \<and>
   fst (run example_env [example_choice ''add a limit'', example_choice []]
          (Wait_user_feedback, initial_state ''how many rows?'')) = Fan_out \<and>
   map (\<lambda>t. p_user_feedback (arg t))
     (generate_query (snd (run example_env [example_choice ''add a limit'', example_choice []]
          (Wait_user_feedback, initial_state ''how many rows?'')))) =
   [''add a limit'', ''add a limit'', ''add a limit'']"
  using next_after_feedback_partition
    [of "example_choice ''add a limit''" "initial_state ''how many rows?''" example_env
        "example_choice []"]
  by (simp add: Let_def example_choice_def)

section \<open>Executing the selected query\<close>

lemma run_simps:
  "run e [] cfg = cfg"
  "run e (c # cs) cfg = run e cs (step e c cfg)"
  by (simp_all add: run_def)

lemma step_execute:
  "step e c (Execute_query, st) =
     (case db_execute_query e (selected_query st) of
        Returned r \<Rightarrow> (End_on_success, st\<lparr>query_result := Some r, error_message := None\<rparr>)
      | Raised x \<Rightarrow> (End_on_error, st\<lparr>query_result := None, error_message := Some x\<rparr>))"
  by (simp add: execute_query_def empty_update_def apply_update_def execute_router_def
      split: outcome.split)

lemma step_end_on_error:
  "step e c (End_on_error, st) =
     (END, st\<lparr>messages := messages st @ [AIMessage msg_error, AIMessage (py_str (error_message st))]\<rparr>)"
  by (simp add: end_on_error_def empty_update_def apply_update_def)

lemma step_end_on_success:
  "step e c (End_on_success, st) =
     (END, st\<lparr>messages := messages st @
        [AIMessage msg_completed, AIMessage (py_str (query_result st))] @
        (case refactoring_suggestion st of
           Some (x # xs) \<Rightarrow> [AIMessage (str_list e (x # xs))]
         | _ \<Rightarrow> [])\<rparr>)"
  by (simp add: end_on_success_def empty_update_def apply_update_def)

lemma execute_router_edge:
  "(follow execute_edges (execute_router x) = End_on_success) = (error_message x = None)"
  by (simp add: execute_router_def)

text \<open>
Claim C5. Whenever the database call made by \<^verbatim>\<open>execute_query\<close> raises, the node returns
  an update all the same: \<^verbatim>\<open>error_message\<close> becomes the text of the exception and
  \<^verbatim>\<open>query_result\<close> becomes \<^verbatim>\<open>None\<close>. The router after the node answers "error", the
  walk goes to \<^verbatim>\<open>end_on_error\<close>, and the messages that node appends are the error
  title followed by the text of the exception.
\<close>

theorem execute_query_fault_to_error_terminal:
  assumes "db_execute_query e (selected_query st) = Raised x"
  shows "(let st' = apply_update st (execute_query e st) in
      error_message st' = Some x \<and> query_result st' = None \<and>
      execute_router st' = ''error'' \<and>
      step e c (Execute_query, st) = (End_on_error, st') \<and>
      the (u_messages (end_on_error st')) = [AIMessage msg_error, AIMessage x] \<and>
      run e [c, c'] (Execute_query, st) =
        (END, st'\<lparr>messages := messages st @ [AIMessage msg_error, AIMessage x]\<rparr>))"
proof -
  define st' where "st' = apply_update st (execute_query e st)"
  have eq: "st' = st\<lparr>query_result := None, error_message := Some x\<rparr>"
    unfolding st'_def using assms
    by (simp add: execute_query_def empty_update_def apply_update_def)
  have s1: "step e c (Execute_query, st) = (End_on_error, st')"
    using assms by (simp only: step_execute eq outcome.case)
  have "error_message st' = Some x \<and> query_result st' = None \<and>
      execute_router st' = ''error'' \<and>
      step e c (Execute_query, st) = (End_on_error, st') \<and>
      the (u_messages (end_on_error st')) = [AIMessage msg_error, AIMessage x] \<and>
      run e [c, c'] (Execute_query, st) =
        (END, st'\<lparr>messages := messages st @ [AIMessage msg_error, AIMessage x]\<rparr>)"
    apply (intro conjI)
    subgoal by (simp add: eq)
    subgoal by (simp add: eq)
    subgoal by (simp add: eq execute_router_def)
    subgoal by (rule s1)
    subgoal by (simp add: eq end_on_error_def empty_update_def)
    subgoal by (simp only: run_simps s1 step_end_on_error) (simp add: eq)
    done
  then show ?thesis unfolding Let_def st'_def .
qed

theorem execute_query_fault_to_error_terminal_witness:
  "(let st = initial_state ''q'' \<lparr>selected_query := Some ''SELECT 2 -- ''\<rparr> in
    db_execute_query example_env (selected_query st) = Raised ''no such table'' \<and>
    run example_env [example_choice [], example_choice []] (Execute_query, st) =
      (END, st\<lparr>messages := [AIMessage msg_error, AIMessage ''no such table''],
          query_result := None, error_message := Some ''no such table''\<rparr>))"
proof -
  define st where "st = initial_state ''q'' \<lparr>selected_query := Some ''SELECT 2 -- ''\<rparr>"
  have h: "db_execute_query example_env (selected_query st) = Raised ''no such table''"
    by (simp add: st_def example_env_def initial_state_def)
  have "apply_update st (execute_query example_env st) =
      st\<lparr>query_result := None, error_message := Some ''no such table''\<rparr>"
    using h by (simp add: execute_query_def empty_update_def apply_update_def)
  moreover have "messages st = []" by (simp add: st_def initial_state_def)
  ultimately show ?thesis
    using h execute_query_fault_to_error_terminal
      [OF h, of "example_choice []" "example_choice []"]
    unfolding Let_def st_def [symmetric] by simp
qed

text \<open>
Claim C6. Whenever the database call made by \<^verbatim>\<open>execute_query\<close> returns, the node sets
  \<^verbatim>\<open>error_message\<close> to \<^verbatim>\<open>None\<close> and \<^verbatim>\<open>query_result\<close> to the returned value; the
  router after the node leads to \<^verbatim>\<open>end_on_success\<close> exactly for a state whose
  \<^verbatim>\<open>error_message\<close> is \<^verbatim>\<open>None\<close>; and the first two messages appended by
  \<^verbatim>\<open>end_on_success\<close> are the completion title and the string form of
  \<^verbatim>\<open>query_result\<close>, which is the returned value.
\<close>

theorem execute_query_success_to_success_terminal:
  assumes "db_execute_query e (selected_query st) = Returned r"
  shows "(let st' = apply_update st (execute_query e st) in
      error_message st' = None \<and> query_result st' = Some r \<and>
      step e c (Execute_query, st) = (End_on_success, st') \<and>
      (follow execute_edges (execute_router x) = End_on_success) = (error_message x = None) \<and>
      take 2 (the (u_messages (end_on_success e st'))) =
        [AIMessage msg_completed, AIMessage (py_str (query_result st'))] \<and>
      py_str (query_result st') = r \<and>
      take (length (messages st) + 2)
        (messages (snd (run e [c, c'] (Execute_query, st)))) =
        messages st @ [AIMessage msg_completed, AIMessage r] \<and>
      fst (run e [c, c'] (Execute_query, st)) = END)"
proof -
  define st' where "st' = apply_update st (execute_query e st)"
  have eq: "st' = st\<lparr>query_result := Some r, error_message := None\<rparr>"
    unfolding st'_def using assms
    by (simp add: execute_query_def empty_update_def apply_update_def)
  have s1: "step e c (Execute_query, st) = (End_on_success, st')"
    using assms by (simp only: step_execute eq outcome.case)
  have "error_message st' = None \<and> query_result st' = Some r \<and>
      step e c (Execute_query, st) = (End_on_success, st') \<and>
      (follow execute_edges (execute_router x) = End_on_success) = (error_message x = None) \<and>
      take 2 (the (u_messages (end_on_success e st'))) =
        [AIMessage msg_completed, AIMessage (py_str (query_result st'))] \<and>
      py_str (query_result st') = r \<and>
      take (length (messages st) + 2)
        (messages (snd (run e [c, c'] (Execute_query, st)))) =
        messages st @ [AIMessage msg_completed, AIMessage r] \<and>
      fst (run e [c, c'] (Execute_query, st)) = END"
    apply (intro conjI)
    subgoal by (simp add: eq)
    subgoal by (simp add: eq)
    subgoal by (rule s1)
    subgoal by (rule execute_router_edge)
    subgoal by (simp add: end_on_success_def empty_update_def)
    subgoal by (simp add: eq)
    subgoal by (simp only: run_simps s1 step_end_on_success) (simp add: eq)
    subgoal by (simp only: run_simps s1 step_end_on_success fst_conv)
    done
  then show ?thesis unfolding Let_def st'_def .
qed

theorem execute_query_success_to_success_terminal_witness:
  "(let st = initial_state ''q'' \<lparr>selected_query := Some ''SELECT 1 -- ''\<rparr> in
    db_execute_query example_env (selected_query st) = Returned ''[(1,)]'' \<and>
    take 2 (messages (snd (run example_env [example_choice [], example_choice []]
       (Execute_query, st)))) = [AIMessage msg_completed, AIMessage ''[(1,)]''])"
proof -
  define st where "st = initial_state ''q'' \<lparr>selected_query := Some ''SELECT 1 -- ''\<rparr>"
  have h: "db_execute_query example_env (selected_query st) = Returned ''[(1,)]''"
    by (simp add: st_def example_env_def initial_state_def)
  have m: "messages st = []" by (simp add: st_def initial_state_def)
  show ?thesis
    using h execute_query_success_to_success_terminal
      [OF h, of "example_choice []" undefined "example_choice []"]
    unfolding Let_def st_def [symmetric] by (simp add: m numeral_2_eq_2)
qed

section \<open>The accumulated candidate list\<close>

lemma prefix_apply_update:
  "prefix (query_suggestion st) (query_suggestion (apply_update st u))"
  by (cases "u_query_suggestion u") simp_all

lemma prefix_fold_apply_update:
  "prefix (query_suggestion st)
     (query_suggestion (fold (\<lambda>t s. apply_update s (f t)) ts st))"
proof (induction ts arbitrary: st)
  case Nil
  show ?case by simp
next
  case (Cons t ts)
  have "prefix (query_suggestion st) (query_suggestion (apply_update st (f t)))"
    by (rule prefix_apply_update)
  also have "prefix \<dots> (query_suggestion (fold (\<lambda>t s. apply_update s (f t)) ts (apply_update st (f t))))"
    by (rule Cons.IH)
  finally show ?case by simp
qed

lemma prefix_step:
  "prefix (query_suggestion (snd cfg)) (query_suggestion (snd (step e c cfg)))"
proof (cases cfg)
  case (Pair n st)
  show ?thesis
  proof (cases n)
    case Fan_out
    then show ?thesis
      unfolding Pair by (simp add: fan_out_def prefix_fold_apply_update del: apply_update_sel)
  qed (simp_all add: Pair Let_def prefix_apply_update del: apply_update_sel)
qed

lemma prefix_run:
  "prefix (query_suggestion (snd cfg)) (query_suggestion (snd (run e cs cfg)))"
proof (induction cs arbitrary: cfg)
  case Nil
  show ?case by (simp add: run_simps)
next
  case (Cons c cs)
  have "prefix (query_suggestion (snd cfg)) (query_suggestion (snd (step e c cfg)))"
    by (rule prefix_step)
  also have "prefix \<dots> (query_suggestion (snd (run e cs (step e c cfg))))"
    by (rule Cons.IH)
  finally show ?case by (simp only: run_simps)
qed

lemma gateway_frame:
  "apply_update st (gateway st) =
     st\<lparr>selected_query := None, refactoring_suggestion := None,
        query_result := None, error_message := None\<rparr>"
  by (simp add: apply_update_def gateway_def empty_update_def overwrite_def add_def)

text \<open>
  Claim C7. Whatever update a node returns, merging it leaves the entries that
  \<^verbatim>\<open>query_suggestion\<close> already holds in place and in order, adding new ones only at
  the end; the empty list in the gateway's update adds nothing. Hence over any number of
  steps of the walk, retry cycles included, the old list is a prefix of the new one and
  the length never decreases.
\<close>

theorem query_suggestion_never_truncated:
  "prefix (query_suggestion st) (query_suggestion (apply_update st u)) \<and>
   query_suggestion (apply_update st (gateway st)) = query_suggestion st \<and>
   prefix (query_suggestion (snd cfg)) (query_suggestion (snd (run e cs cfg))) \<and>
   length (query_suggestion (snd cfg)) \<le> length (query_suggestion (snd (run e cs cfg)))"
proof (intro conjI)
  show "prefix (query_suggestion st) (query_suggestion (apply_update st u))"
    by (rule prefix_apply_update)
  show "query_suggestion (apply_update st (gateway st)) = query_suggestion st"
    by (simp add: gateway_def empty_update_def)
  show "prefix (query_suggestion (snd cfg)) (query_suggestion (snd (run e cs cfg)))"
    by (rule prefix_run)
  then show "length (query_suggestion (snd cfg)) \<le> length (query_suggestion (snd (run e cs cfg)))"
    by (rule prefix_length_le)
qed

text \<open>
  Claim C9. The gateway's update sets \<^verbatim>\<open>selected_query\<close>, \<^verbatim>\<open>refactoring_suggestion\<close>,
  \<^verbatim>\<open>query_result\<close> and \<^verbatim>\<open>error_message\<close> to \<^verbatim>\<open>None\<close> and changes nothing else:
  \<^verbatim>\<open>user_request\<close>, \<^verbatim>\<open>user_feedback\<close>, \<^verbatim>\<open>messages\<close> and \<^verbatim>\<open>query_suggestion\<close> keep
  their values. So whatever these four fields held before the gateway has no influence
  on the walk from the gateway on: with the same outside choices it passes through the
  same nodes with the same states.
\<close>

theorem gateway_resets_cycle_fields:
  "apply_update st (gateway st) =
     st\<lparr>selected_query := None, refactoring_suggestion := None,
        query_result := None, error_message := None\<rparr> \<and>
   user_request (apply_update st (gateway st)) = user_request st \<and>
   user_feedback (apply_update st (gateway st)) = user_feedback st \<and>
   messages (apply_update st (gateway st)) = messages st \<and>
   query_suggestion (apply_update st (gateway st)) = query_suggestion st \<and>
   run e (c # cs)
     (Gateway, st\<lparr>selected_query := a, refactoring_suggestion := b,
                   query_result := r, error_message := x\<rparr>) =
   run e (c # cs) (Gateway, st)"
proof -
  have "step e c (Gateway, st\<lparr>selected_query := a, refactoring_suggestion := b,
                   query_result := r, error_message := x\<rparr>) = step e c (Gateway, st)"
    by (simp only: step.simps gateway_frame) simp
  then have "run e (c # cs)
     (Gateway, st\<lparr>selected_query := a, refactoring_suggestion := b,
                   query_result := r, error_message := x\<rparr>) =
   run e (c # cs) (Gateway, st)"
    by (simp only: run_simps)
  then show ?thesis
    by (simp add: gateway_frame)
qed

section \<open>The fan-out and its join\<close>

lemma query_suggestion_apply_written:
  "query_suggestion (apply_update st u) = query_suggestion st @ written u"
  by (cases "u_query_suggestion u") (simp_all add: written_def)

lemma query_suggestion_fold:
  "query_suggestion (fold (\<lambda>t s. apply_update s (f t)) ts st) =
     query_suggestion st @ concat (map (\<lambda>t. written (f t)) ts)"
  by (induction ts arbitrary: st) (simp_all add: query_suggestion_apply_written del: apply_update_sel)

lemma mset_concat_map_cong:
  assumes "mset ts = mset us"
  shows "mset (concat (map g ts)) = mset (concat (map g us))"
proof -
  have "mset (concat (map g xs)) = (\<Sum>x\<in>#mset xs. mset (g x))" for xs :: "'a list"
    by (induction xs) simp_all
  then show ?thesis by (simp only: assms)
qed

lemma mset_merge_order: "mset (merge_order tasks fin) = mset tasks"
  by (simp add: merge_order_def)

lemma written_agents:
  "written (query_agent_1 e p) =
     [(''query_agent_1'',
       \<lparr>query = (case basic_chain e (p_user_request p) (p_user_feedback p) of
                   Returned r \<Rightarrow> out_query r | Raised x \<Rightarrow> ''-- Error: '' @ x),
        suggestion = None\<rparr>)]"
  "written (query_agent_2 e p) =
     [(''query_agent_2'',
       \<lparr>query = (case optimized_chain e (p_user_request p) (p_user_feedback p) of
                   Returned r \<Rightarrow> out_query r | Raised x \<Rightarrow> ''-- Error: '' @ x),
        suggestion = None\<rparr>)]"
  "written (query_agent_3 e p) =
     [(''query_agent_3'',
       \<lparr>query = (case advanced_chain e (p_user_request p) (p_user_feedback p) of
                   Returned r \<Rightarrow> out_query r | Raised x \<Rightarrow> ''-- Error: '' @ x),
        suggestion = (case advanced_chain e (p_user_request p) (p_user_feedback p) of
                   Returned r \<Rightarrow> Some (out_suggestion r) | Raised x \<Rightarrow> Some [])\<rparr>)]"
  by (simp_all add: written_def query_agent_1_def query_agent_2_def query_agent_3_def
      empty_update_def error_query_def split: outcome.split)

lemma written_dispatch:
  "concat (map (\<lambda>t. written (run_task e t)) (generate_query st)) =
     written (query_agent_1 e \<lparr>p_user_request = user_request st, p_user_feedback = user_feedback st\<rparr>) @
     written (query_agent_2 e \<lparr>p_user_request = user_request st, p_user_feedback = user_feedback st\<rparr>) @
     written (query_agent_3 e \<lparr>p_user_request = user_request st, p_user_feedback = user_feedback st\<rparr>)"
  by (simp add: generate_query_def run_task_def)

lemma fan_out_new_entries:
  "\<exists>new. query_suggestion (fan_out e fin st) = query_suggestion st @ new \<and>
     mset new = mset
       (written (query_agent_1 e \<lparr>p_user_request = user_request st, p_user_feedback = user_feedback st\<rparr>) @
        written (query_agent_2 e \<lparr>p_user_request = user_request st, p_user_feedback = user_feedback st\<rparr>) @
        written (query_agent_3 e \<lparr>p_user_request = user_request st, p_user_feedback = user_feedback st\<rparr>))"
proof -
  let ?new = "concat (map (\<lambda>t. written (run_task e t)) (merge_order (generate_query st) fin))"
  have "query_suggestion (fan_out e fin st) = query_suggestion st @ ?new"
    unfolding fan_out_def by (rule query_suggestion_fold)
  moreover have "mset ?new = mset (concat (map (\<lambda>t. written (run_task e t)) (generate_query st)))"
    by (rule mset_concat_map_cong) (rule mset_merge_order)
  ultimately show ?thesis
    unfolding written_dispatch by blast
qed

lemma gateway_keeps:
  "query_suggestion (apply_update st (gateway st)) = query_suggestion st"
  "user_request (apply_update st (gateway st)) = user_request st"
  "user_feedback (apply_update st (gateway st)) = user_feedback st"
  by (simp_all add: gateway_def empty_update_def)

text \<open>
  Claim C2. After the gateway, the step that runs the three dispatched tasks hands to
  \<^verbatim>\<open>aggregate\<close> a state whose \<^verbatim>\<open>query_suggestion\<close> is the old list followed by exactly
  three new entries, one for each of \<^verbatim>\<open>query_agent_1\<close>, \<^verbatim>\<open>query_agent_2\<close> and
  \<^verbatim>\<open>query_agent_3\<close>, in whatever order the tasks are merged; \<^verbatim>\<open>aggregate\<close> adds
  nothing. When the chain of a producer raises an exception with text \<open>x\<close>, the entry of
  that producer is among the three and its query is the string "-- Error: " followed by
  \<open>x\<close>.
\<close>

theorem fan_out_joins_three_entries:
  "(let st1 = apply_update st (gateway st);
        st2 = fan_out e (finished c) st1;
        new = drop (length (query_suggestion st)) (query_suggestion st2) in
      step e c (Fan_out, st1) = (Aggregate, st2) \<and>
      query_suggestion (apply_update st2 (aggregate st2)) = query_suggestion st2 \<and>
      query_suggestion st2 = query_suggestion st @ new \<and>
      length new = 3 \<and>
      mset (map fst new) = mset [''query_agent_1'', ''query_agent_2'', ''query_agent_3''] \<and>
      (basic_chain e (user_request st) (user_feedback st) = Raised x \<longrightarrow>
         (''query_agent_1'', \<lparr>query = ''-- Error: '' @ x, suggestion = None\<rparr>) \<in> set new) \<and>
      (optimized_chain e (user_request st) (user_feedback st) = Raised x \<longrightarrow>
         (''query_agent_2'', \<lparr>query = ''-- Error: '' @ x, suggestion = None\<rparr>) \<in> set new) \<and>
      (advanced_chain e (user_request st) (user_feedback st) = Raised x \<longrightarrow>
         (''query_agent_3'', \<lparr>query = ''-- Error: '' @ x, suggestion = Some []\<rparr>) \<in> set new))"
proof -
  define st1 where "st1 = apply_update st (gateway st)"
  define st2 where "st2 = fan_out e (finished c) st1"
  define new where "new = drop (length (query_suggestion st)) (query_suggestion st2)"
  define p where "p = \<lparr>p_user_request = user_request st, p_user_feedback = user_feedback st\<rparr>"
  have pp: "p_user_request p = user_request st" "p_user_feedback p = user_feedback st"
    by (simp_all add: p_def)
  obtain new' where n1: "query_suggestion st2 = query_suggestion st1 @ new'"
    and n2: "mset new' = mset (written (query_agent_1 e
        \<lparr>p_user_request = user_request st1, p_user_feedback = user_feedback st1\<rparr>) @
      written (query_agent_2 e
        \<lparr>p_user_request = user_request st1, p_user_feedback = user_feedback st1\<rparr>) @
      written (query_agent_3 e
        \<lparr>p_user_request = user_request st1, p_user_feedback = user_feedback st1\<rparr>))"
    unfolding st2_def using fan_out_new_entries [of e "finished c" st1] by blast
  have app: "query_suggestion st2 = query_suggestion st @ new'"
    using n1 by (simp only: st1_def gateway_keeps)
  then have new: "new = new'" by (simp add: new_def)
  have ms: "mset new = mset (written (query_agent_1 e p) @ written (query_agent_2 e p) @
      written (query_agent_3 e p))"
    using n2 by (simp only: new st1_def gateway_keeps p_def)
  have a: "step e c (Fan_out, st1) = (Aggregate, st2)"
    by (simp add: st2_def)
  have b: "query_suggestion (apply_update st2 (aggregate st2)) = query_suggestion st2"
    by (simp add: aggregate_def empty_update_def)
  have c: "query_suggestion st2 = query_suggestion st @ new"
    using app new by simp
  have "size (mset new) = 3"
    unfolding ms by (simp add: written_agents)
  then have d: "length new = 3" by simp
  have "image_mset fst (mset new) = mset [''query_agent_1'', ''query_agent_2'', ''query_agent_3'']"
    unfolding ms by (simp add: written_agents)
  then have f: "mset (map fst new) = mset [''query_agent_1'', ''query_agent_2'', ''query_agent_3'']"
    by simp
  have mem: "set new = set (written (query_agent_1 e p) @ written (query_agent_2 e p) @
      written (query_agent_3 e p))"
    using ms by (rule mset_eq_setD)
  have g1: "basic_chain e (user_request st) (user_feedback st) = Raised x \<longrightarrow>
         (''query_agent_1'', \<lparr>query = ''-- Error: '' @ x, suggestion = None\<rparr>) \<in> set new"
    unfolding mem by (simp add: written_agents pp)
  have g2: "optimized_chain e (user_request st) (user_feedback st) = Raised x \<longrightarrow>
         (''query_agent_2'', \<lparr>query = ''-- Error: '' @ x, suggestion = None\<rparr>) \<in> set new"
    unfolding mem by (simp add: written_agents pp)
  have g3: "advanced_chain e (user_request st) (user_feedback st) = Raised x \<longrightarrow>
         (''query_agent_3'', \<lparr>query = ''-- Error: '' @ x, suggestion = Some []\<rparr>) \<in> set new"
    unfolding mem by (simp add: written_agents pp)
  show ?thesis
    unfolding Let_def st1_def [symmetric] st2_def [symmetric] new_def [symmetric]
    by (rule conjI [OF a conjI [OF b conjI [OF c conjI [OF d conjI [OF f conjI [OF g1 conjI [OF g2 g3]]]]]]])
qed

theorem fan_out_joins_three_entries_witness:
  "advanced_chain example_env (user_request (initial_state ''how many rows?''))
     (user_feedback (initial_state ''how many rows?'')) = Raised ''timeout'' \<and>
   (''query_agent_3'', \<lparr>query = ''-- Error: '' @ ''timeout'', suggestion = Some []\<rparr>) \<in> set
     (drop (length (query_suggestion (initial_state ''how many rows?'')))
        (query_suggestion (fan_out example_env (finished (example_choice []))
           (apply_update (initial_state ''how many rows?'')
              (gateway (initial_state ''how many rows?''))))))"
proof -
  have h: "advanced_chain example_env (user_request (initial_state ''how many rows?''))
     (user_feedback (initial_state ''how many rows?'')) = Raised ''timeout''"
    by (simp add: example_env_def)
  note all = fan_out_joins_three_entries
    [where e = example_env and c = "example_choice []" and x = "''timeout''"
       and st = "initial_state ''how many rows?''", unfolded Let_def]
  note last = all [THEN conjunct2, THEN conjunct2, THEN conjunct2, THEN conjunct2,
    THEN conjunct2, THEN conjunct2, THEN conjunct2]
  from last h show ?thesis by (simp only: simp_thms)
qed

section \<open>Selecting a candidate after a retry\<close>

lemma example_retry_then_select_2:
  "run example_env retry_then_select_2 (Gateway, initial_state ''how many rows?'') =
     (Execute_query,
      \<lparr>messages = [], user_request = ''how many rows?'', user_feedback = ''2'',
       selected_query = Some ''SELECT 2 -- '',
       query_suggestion =
         [(''query_agent_1'', \<lparr>query = ''SELECT 1 -- '', suggestion = None\<rparr>),
          (''query_agent_2'', \<lparr>query = ''SELECT 2 -- '', suggestion = None\<rparr>),
          (''query_agent_3'', \<lparr>query = ''-- Error: timeout'', suggestion = Some []\<rparr>),
          (''query_agent_1'', \<lparr>query = ''SELECT 1 -- add a limit'', suggestion = None\<rparr>),
          (''query_agent_2'', \<lparr>query = ''SELECT 2 -- add a limit'', suggestion = None\<rparr>),
          (''query_agent_3'', \<lparr>query = ''-- Error: timeout'', suggestion = Some []\<rparr>)],
       refactoring_suggestion = None, query_result = None, error_message = None\<rparr>)"
  by (simp add: retry_then_select_2_def run_simps gateway_def fan_out_def merge_order_def
      example_choice_def generate_query_def run_task_def query_agent_1_def query_agent_2_def
      query_agent_3_def example_env_def empty_update_def error_query_def apply_update_def
      aggregate_def initial_state_def wait_user_feedback_def next_after_feedback_def
      find_selected_query_def Let_def
      del: apply_update_sel)

text \<open>
  Claim C1, evaluated on the code. The workflow is started, the first suspension is
  answered with the feedback "add a limit" (a retry), and the second suspension with the
  selector "2". The walk reaches \<^verbatim>\<open>execute_query\<close>; the list holds two entries of
  \<^verbatim>\<open>query_agent_2\<close>, the first from the first cycle and the second, most recent one
  from the retry; \<^verbatim>\<open>selected_query\<close> is the query of the first, not of the most recent.
\<close>

theorem selector_2_after_retry:
  "fst (run example_env retry_then_select_2 (Gateway, initial_state ''how many rows?'')) =
     Execute_query \<and>
   map (\<lambda>cand. query (snd cand))
     (filter (\<lambda>cand. fst cand = ''query_agent_2'')
        (query_suggestion
           (snd (run example_env retry_then_select_2
              (Gateway, initial_state ''how many rows?''))))) =
     [''SELECT 2 -- '', ''SELECT 2 -- add a limit''] \<and>
   selected_query
     (snd (run example_env retry_then_select_2 (Gateway, initial_state ''how many rows?''))) =
     Some ''SELECT 2 -- ''"
  by (simp only: example_retry_then_select_2) simp

section \<open>The refactoring message of the success terminal\<close>


















section \<open>The candidates shown to the user\<close>

lemma fold_dict_update:
  "fold (\<lambda>(a, q) d. d(a \<mapsto> q)) xs d0 = d0 ++ map_of (rev xs)"
proof (induction xs arbitrary: d0)
  case Nil
  show ?case by simp
next
  case (Cons x xs)
  obtain a q where x: "x = (a, q)" by (cases x)
  have "fold (\<lambda>(a, q) d. d(a \<mapsto> q)) (x # xs) d0 =
      fold (\<lambda>(a, q) d. d(a \<mapsto> q)) xs (d0(a \<mapsto> q))"
    by (simp add: x)
  also have "\<dots> = d0(a \<mapsto> q) ++ map_of (rev xs)"
    by (rule Cons.IH)
  also have "\<dots> = d0 ++ map_of (rev (x # xs))"
    by (simp add: x map_add_def fun_eq_iff split: option.split)
  finally show ?case .
qed

lemma fold_display_loop:
  "fold (\<lambda>a acc. case d a of Some q \<Rightarrow> acc @ [(a, q)] | None \<Rightarrow> acc) as acc0 =
     acc0 @ List.map_filter (\<lambda>a. map_option (Pair a) (d a)) as"
  by (induction as arbitrary: acc0) (simp_all add: map_filter_simps split: option.split)

lemma recent_is_last_three:
  "(if length xs > 3 then drop (length xs - 3) xs else xs) = last_three xs"
  by (simp add: last_three_def)

lemma process_is_displayed:
  "process_query_suggestions xs = displayed_candidates xs"
proof (cases "xs = []")
  case True
  then show ?thesis
    by (simp add: process_query_suggestions_def displayed_candidates_def last_three_def
        latest_entry_def agent_order_def map_filter_simps)
next
  case False
  have "latest_entry (last_three xs) = map_of (rev (last_three xs))"
    by (rule ext) (simp add: latest_entry_def)
  with False show ?thesis
    unfolding process_query_suggestions_def displayed_candidates_def Let_def
      recent_is_last_three fold_dict_update fold_display_loop
    by simp
qed

lemma length_map_filter_le: "length (List.map_filter f xs) \<le> length xs"
  by (induction xs) (simp_all add: map_filter_simps split: option.split)

lemma displayed_le_3: "length (displayed_candidates xs) \<le> 3"
proof -
  have "length (displayed_candidates xs) \<le> length agent_order"
    unfolding displayed_candidates_def by (rule length_map_filter_le)
  then show ?thesis by (simp add: agent_order_def)
qed

lemma last_three_append:
  assumes "length cyc = 3"
  shows "last_three (old @ cyc) = cyc"
  using assms by (simp add: last_three_def)

lemma latest_entry_distinct:
  assumes "distinct (map fst cyc)"
  shows "(latest_entry cyc a = Some q) = ((a, q) \<in> set cyc)"
proof -
  have "distinct (map fst (rev cyc))" using assms by (simp add: rev_map [symmetric])
  then have "(map_of (rev cyc) a = Some q) = ((a, q) \<in> set (rev cyc))"
    by (rule map_of_eq_Some_iff)
  then show ?thesis by (simp add: latest_entry_def)
qed

lemma displayed_full_cycle:
  assumes "mset (map fst cyc) = mset agent_order"
  shows "map fst (displayed_candidates (old @ cyc)) = agent_order"
    and "mset (displayed_candidates (old @ cyc)) = mset cyc"
proof -
  have len: "length cyc = 3"
    using assms [THEN mset_eq_length] by (simp add: agent_order_def)
  have "distinct agent_order" by (simp add: agent_order_def)
  then have dist: "distinct (map fst cyc)"
    using assms by (metis mset_eq_imp_distinct_iff)
  have names: "set (map fst cyc) = set agent_order"
    using assms by (rule mset_eq_setD)
  define pick where "pick a = the (latest_entry cyc a)" for a
  have found: "latest_entry cyc a = Some (pick a)" if "a \<in> set agent_order" for a
  proof -
    from that names obtain q where "(a, q) \<in> set cyc" by force
    then have "latest_entry cyc a = Some q" by (simp only: latest_entry_distinct [OF dist])
    then show ?thesis by (simp add: pick_def)
  qed
  have disp: "displayed_candidates (old @ cyc) = map (\<lambda>a. (a, pick a)) agent_order"
    unfolding displayed_candidates_def last_three_append [OF len]
    using found by (simp add: agent_order_def map_filter_simps)
  show "map fst (displayed_candidates (old @ cyc)) = agent_order"
    unfolding disp by (simp add: comp_def)
  have "distinct (displayed_candidates (old @ cyc))"
    unfolding disp using \<open>distinct agent_order\<close> by (simp add: distinct_map inj_on_def)
  moreover have "distinct cyc" using dist by (rule distinct_map [THEN iffD1, THEN conjunct1])
  moreover have "set (displayed_candidates (old @ cyc)) = set cyc"
  proof (rule set_eqI)
    fix x :: candidate
    obtain a q where x: "x = (a, q)" by (cases x)
    have "x \<in> set (displayed_candidates (old @ cyc)) \<longleftrightarrow> a \<in> set agent_order \<and> q = pick a"
      unfolding disp x by auto
    also have "\<dots> \<longleftrightarrow> a \<in> set agent_order \<and> latest_entry cyc a = Some q"
      using found by auto
    also have "\<dots> \<longleftrightarrow> (a, q) \<in> set cyc"
      unfolding latest_entry_distinct [OF dist] using names by force
    finally show "x \<in> set (displayed_candidates (old @ cyc)) \<longleftrightarrow> x \<in> set cyc"
      by (simp only: x)
  qed
  ultimately show "mset (displayed_candidates (old @ cyc)) = mset cyc"
    by (simp only: set_eq_iff_mset_eq_distinct [symmetric])
qed

lemma fan_out_names:
  "mset (map fst
     (written (query_agent_1 e p) @ written (query_agent_2 e p) @ written (query_agent_3 e p))) =
   mset agent_order"
  by (simp add: written_agents agent_order_def)

lemma displayed_after_fan_out:
  "map fst (displayed_candidates (query_suggestion
       (fan_out e fin (apply_update st (gateway st))))) = agent_order \<and>
   mset (displayed_candidates (query_suggestion
       (fan_out e fin (apply_update st (gateway st))))) =
   mset (drop (length (query_suggestion st))
       (query_suggestion (fan_out e fin (apply_update st (gateway st)))))"
proof -
  define st1 where "st1 = apply_update st (gateway st)"
  obtain new where n1: "query_suggestion (fan_out e fin st1) = query_suggestion st1 @ new"
    and n2: "mset new = mset (written (query_agent_1 e
        \<lparr>p_user_request = user_request st1, p_user_feedback = user_feedback st1\<rparr>) @
      written (query_agent_2 e
        \<lparr>p_user_request = user_request st1, p_user_feedback = user_feedback st1\<rparr>) @
      written (query_agent_3 e
        \<lparr>p_user_request = user_request st1, p_user_feedback = user_feedback st1\<rparr>))"
    using fan_out_new_entries [of e fin st1] by blast
  have app: "query_suggestion (fan_out e fin st1) = query_suggestion st @ new"
    using n1 by (simp only: st1_def gateway_keeps)
  have "mset (map fst new) = image_mset fst (mset new)" by simp
  also have "\<dots> = mset agent_order"
    unfolding n2 using fan_out_names by simp
  finally have names: "mset (map fst new) = mset agent_order" .
  have dr: "drop (length (query_suggestion st)) (query_suggestion (fan_out e fin st1)) = new"
    by (simp add: app)
  show ?thesis
    unfolding st1_def [symmetric] dr
    unfolding app
    using displayed_full_cycle [OF names] by blast
qed

text \<open>
  Claim C8. For every list, \<^verbatim>\<open>_process_query_suggestions\<close> returns what the
  specification describes: of the last three entries, the latest one of each producer,
  listed in the order \<^verbatim>\<open>query_agent_1\<close>, \<^verbatim>\<open>query_agent_2\<close>, \<^verbatim>\<open>query_agent_3\<close>; the
  result never has more than three entries. When the list ends with the three entries of
  a fan-out cycle, one per producer, the result is exactly these three, in producer
  order; this is the case for the list that the workflow holds after any fan-out.
\<close>

theorem process_query_suggestions_latest_cycle:
  "process_query_suggestions xs = displayed_candidates xs \<and>
   length (process_query_suggestions xs) \<le> 3 \<and>
   (mset (map fst cyc) = mset agent_order \<longrightarrow>
      map fst (process_query_suggestions (old @ cyc)) = agent_order \<and>
      mset (process_query_suggestions (old @ cyc)) = mset cyc) \<and>
   map fst (process_query_suggestions (query_suggestion
       (fan_out e fin (apply_update st (gateway st))))) = agent_order \<and>
   mset (process_query_suggestions (query_suggestion
       (fan_out e fin (apply_update st (gateway st))))) =
   mset (drop (length (query_suggestion st))
       (query_suggestion (fan_out e fin (apply_update st (gateway st)))))"
  unfolding process_is_displayed
  using displayed_le_3 displayed_full_cycle displayed_after_fan_out by blast

theorem process_query_suggestions_latest_cycle_witness:
  "mset (map fst
     [(''query_agent_2'', \<lparr>query = ''SELECT 2 -- add a limit'', suggestion = None\<rparr>),
      (''query_agent_3'', \<lparr>query = ''-- Error: timeout'', suggestion = Some []\<rparr>),
      (''query_agent_1'', \<lparr>query = ''SELECT 1 -- add a limit'', suggestion = None\<rparr>)]) =
     mset agent_order \<and>
   map fst (process_query_suggestions
     ([(''query_agent_1'', \<lparr>query = ''SELECT 1 -- '', suggestion = None\<rparr>),
       (''query_agent_2'', \<lparr>query = ''SELECT 2 -- '', suggestion = None\<rparr>),
       (''query_agent_3'', \<lparr>query = ''-- Error: timeout'', suggestion = Some []\<rparr>)] @
      [(''query_agent_2'', \<lparr>query = ''SELECT 2 -- add a limit'', suggestion = None\<rparr>),
       (''query_agent_3'', \<lparr>query = ''-- Error: timeout'', suggestion = Some []\<rparr>),
       (''query_agent_1'', \<lparr>query = ''SELECT 1 -- add a limit'', suggestion = None\<rparr>)])) =
     agent_order"
proof -
  have h: "mset (map fst
     [(''query_agent_2'', \<lparr>query = ''SELECT 2 -- add a limit'', suggestion = None\<rparr>),
      (''query_agent_3'', \<lparr>query = ''-- Error: timeout'', suggestion = Some []\<rparr>),
      (''query_agent_1'', \<lparr>query = ''SELECT 1 -- add a limit'', suggestion = None\<rparr>)]) =
     mset agent_order"
    by (simp add: agent_order_def)
  note inst = process_query_suggestions_latest_cycle
    [THEN conjunct2, THEN conjunct2, THEN conjunct1, THEN mp, OF h, THEN conjunct1]
  from h inst show ?thesis by (rule conjI)
qed

end
